theory Spec2Isabelle
  imports Main
begin

section \<open>Cross-application URL building (\<open>invenio_base/urls.py\<close>)\<close>

text \<open>
  The module builds absolute URLs for endpoints of the current Flask application and,
  when the current application does not know the endpoint, for endpoints of a second
  application whose routes were mirrored at set-up time. The embedding follows the
  Python source: an exception is a value of \<open>error\<close> on the left of a sum, an object
  attribute that may not have been assigned yet is an \<open>option\<close>, a dictionary is a
  partial map (or an association list where Python's insertion order is observable).
\<close>

subsection \<open>Exceptions and configuration values\<close>

datatype error =
    BuildError
  | KeyError string
  | TypeError
  | AttributeError string
  | RuntimeError
  | OtherError string

text \<open>
  \<open>BuildError\<close> is \<open>werkzeug.routing.BuildError\<close>, the only exception the \<open>except\<close>
  clause of \<open>build\<close> names. \<open>KeyError k\<close> is a missing configuration key,
  \<open>TypeError\<close> is \<open>+\<close> between a non-string and a string, \<open>AttributeError a\<close> is the
  read of an attribute that was never assigned, \<open>RuntimeError\<close> is the use of
  \<open>current_app\<close> outside an application context, and \<open>OtherError\<close> stands for any
  other exception a collaborator raises.
\<close>

datatype cfgval = Str string | Dict "(string \<times> string) list" | NoneVal

subsection \<open>Routes, routing tables and the Flask application\<close>

record Rule =
  rule :: string
  endpoint :: string
  methods :: "string list option"

type_synonym Map = "Rule list"

datatype view = View string

record Flask =
  import_name :: string
  config :: "string \<rightharpoonup> cfgval"
  app_url_map :: Map
  view_functions :: "string \<rightharpoonup> view"

text \<open>
  \<open>Rule(string, endpoint=e)\<close>: every other keyword keeps its default, in particular
  \<open>methods=None\<close>. \<open>Map(rules)\<close> adds the rules in order, and \<open>iter_rules()\<close> gives
  them back in that order.
\<close>

definition Rule_new :: "string \<Rightarrow> string \<Rightarrow> Rule" where
  "Rule_new s e = \<lparr>rule = s, endpoint = e, methods = None\<rparr>"

definition Map_new :: "Rule list \<Rightarrow> Map" where
  "Map_new rules = rules"

definition iter_rules :: "Map \<Rightarrow> Rule list" where
  "iter_rules m = m"

text \<open>
  \<open>Flask(name)\<close>: a new application already routes its static folder, with a view
  function registered under the endpoint \<open>static\<close>.
\<close>

definition Flask_new :: "string \<Rightarrow> Flask" where
  "Flask_new name =
     \<lparr>import_name = name,
      config = Map.empty,
      app_url_map =
        [\<lparr>rule = ''/static/<path:filename>'', endpoint = ''static'',
          methods = Some [''GET'', ''HEAD'', ''OPTIONS'']\<rparr>],
      view_functions = [''static'' \<mapsto> View ''send_static_file'']\<rparr>"

subsection \<open>The resolver object\<close>

text \<open>
  The constructor assigns three attributes. \<open>url_map\<close> is assigned by \<open>setup\<close> only, so
  it is \<open>None\<close> on an instance whose \<open>setup\<close> has not run.
\<close>

record InvenioAppsUrlsBuilder =
  cfg_of_app_prefix :: string
  cfg_of_other_app_prefix :: string
  groups_of_other_app_entrypoints :: "string list"
  url_map :: "Map option"

definition init :: "string \<Rightarrow> string \<Rightarrow> string list \<Rightarrow> InvenioAppsUrlsBuilder" where
  "init own other groups =
     \<lparr>cfg_of_app_prefix = own, cfg_of_other_app_prefix = other,
      groups_of_other_app_entrypoints = groups, url_map = None\<rparr>"

text \<open>
  \<open>setup\<close>. \<open>app_tmp\<close> is the temporary application with the one configuration key
  copied. The plugin loader \<open>blueprint_loader\<close> lives in \<open>invenio_base.app\<close>; it is a
  parameter here: it receives the temporary application and the entry point groups and
  either raises or returns the application with the blueprints registered.
\<close>

type_synonym loader = "Flask \<Rightarrow> string list \<Rightarrow> error + Flask"

definition config_get :: "Flask \<Rightarrow> string \<Rightarrow> cfgval \<Rightarrow> cfgval" where
  "config_get app k d = (case config app k of None \<Rightarrow> d | Some v \<Rightarrow> v)"

definition app_tmp :: "Flask \<Rightarrow> Flask" where
  "app_tmp app =
     (Flask_new ''InvenioAppsUrlsBuilder'')
       \<lparr>config := (config (Flask_new ''InvenioAppsUrlsBuilder''))
          (''BLUEPRINTS_URL_PREFIXES'' \<mapsto>
             config_get app ''BLUEPRINTS_URL_PREFIXES'' (Dict []))\<rparr>"

definition setup_builder ::
  "loader \<Rightarrow> InvenioAppsUrlsBuilder \<Rightarrow> Flask \<Rightarrow> error + InvenioAppsUrlsBuilder" where
  "setup_builder blueprint_loader self app =
     (case blueprint_loader (app_tmp app) (groups_of_other_app_entrypoints self) of
        Inl e \<Rightarrow> Inl e
      | Inr loaded \<Rightarrow>
          Inr (self\<lparr>url_map :=
                 Some (Map_new (map (\<lambda>r. Rule_new (rule r) (endpoint r))
                                    (iter_rules (app_url_map loaded))))\<rparr>))"

subsection \<open>Building\<close>

text \<open>
  \<open>url_adapter.build(endpoint, values, method=method, force_external=False)\<close> on a table
  bound with \<open>bind("")\<close> is the routing library's; \<open>build\<close> takes it as a parameter.
  \<open>values\<close> is a dictionary, kept as an association list in insertion order.
\<close>

type_synonym vals = "(string \<times> string) list"

type_synonym adapter = "Map \<Rightarrow> string \<Rightarrow> vals \<Rightarrow> string option \<Rightarrow> error + string"

text \<open>\<open>prefix\<close>: \<open>current_app.config[site_cfg]\<close>, with no default.\<close>

definition prefix :: "Flask option \<Rightarrow> string \<Rightarrow> error + cfgval" where
  "prefix current_app site_cfg =
     (case current_app of
        None \<Rightarrow> Inl RuntimeError
      | Some app \<Rightarrow>
          (case config app site_cfg of
             None \<Rightarrow> Inl (KeyError site_cfg)
           | Some v \<Rightarrow> Inr v))"

text \<open>\<open>p + url_relative\<close>, where \<open>url_relative\<close> is a string.\<close>

definition add_str :: "cfgval \<Rightarrow> string \<Rightarrow> error + string" where
  "add_str p url_relative =
     (case p of Str s \<Rightarrow> Inr (s @ url_relative) | _ \<Rightarrow> Inl TypeError)"

text \<open>
  The body of the \<open>try\<close> block (phase 1) and the statements after it (phase 2), then
  \<open>build\<close> itself: only a \<open>BuildError\<close> of phase 1 is caught.
\<close>

definition phase1 ::
  "adapter \<Rightarrow> InvenioAppsUrlsBuilder \<Rightarrow> Flask option \<Rightarrow> string \<Rightarrow> vals \<Rightarrow> string option
     \<Rightarrow> error + string" where
  "phase1 adapter_build self current_app ep values meth =
     (case current_app of
        None \<Rightarrow> Inl RuntimeError
      | Some app \<Rightarrow>
          (case adapter_build (app_url_map app) ep values meth of
             Inl e \<Rightarrow> Inl e
           | Inr url_relative \<Rightarrow>
               (case prefix current_app (cfg_of_app_prefix self) of
                  Inl e \<Rightarrow> Inl e
                | Inr p \<Rightarrow> add_str p url_relative)))"

definition phase2 ::
  "adapter \<Rightarrow> InvenioAppsUrlsBuilder \<Rightarrow> Flask option \<Rightarrow> string \<Rightarrow> vals \<Rightarrow> string option
     \<Rightarrow> error + string" where
  "phase2 adapter_build self current_app ep values meth =
     (case url_map self of
        None \<Rightarrow> Inl (AttributeError ''url_map'')
      | Some m \<Rightarrow>
          (case adapter_build m ep values meth of
             Inl e \<Rightarrow> Inl e
           | Inr url_relative \<Rightarrow>
               (case prefix current_app (cfg_of_other_app_prefix self) of
                  Inl e \<Rightarrow> Inl e
                | Inr p \<Rightarrow> add_str p url_relative)))"

definition build ::
  "adapter \<Rightarrow> InvenioAppsUrlsBuilder \<Rightarrow> Flask option \<Rightarrow> string \<Rightarrow> vals \<Rightarrow> string option
     \<Rightarrow> error + string" where
  "build adapter_build self current_app ep values meth =
     (case phase1 adapter_build self current_app ep values meth of
        Inr url \<Rightarrow> Inr url
      | Inl BuildError \<Rightarrow> phase2 adapter_build self current_app ep values meth
      | Inl e \<Rightarrow> Inl e)"

subsection \<open>The routing library's build, as far as the scenarios need it\<close>

text \<open>
  \<open>werkzeug.routing\<close> is not part of the repository. The general results below hold
  for every adapter; results that speak of the routes a table holds use this reference
  model of \<open>MapAdapter.build\<close> on a table bound with \<open>bind("")\<close>. It covers rules made
  of literal text and placeholders \<open><name>\<close>, \<open><string:name>\<close> and \<open><path:name>\<close>, string
  values, the method filter, the order in which the rules of an endpoint are tried, the
  query string made of the values no placeholder takes, and percent-encoding. Defaults,
  subdomains, aliases and the converters \<open>int\<close>, \<open>float\<close>, \<open>uuid\<close> and \<open>any\<close> are
  outside it: a rule whose pattern is malformed or names another converter is one the
  library refuses to put in a table, and the model never builds from it.
\<close>

datatype part = Static string | Dynamic string string

definition mk_dynamic :: "string \<Rightarrow> part" where
  "mk_dynamic s =
     (if CHR '':'' \<in> set s
      then Dynamic (takeWhile (\<lambda>c. c \<noteq> CHR ''('') (takeWhile (\<lambda>c. c \<noteq> CHR '':'') s))
                   (tl (dropWhile (\<lambda>c. c \<noteq> CHR '':'') s))
      else Dynamic ''default'' s)"

fun parse_rule_aux :: "bool \<Rightarrow> string \<Rightarrow> string \<Rightarrow> part list option" where
  "parse_rule_aux False buf [] = Some (if buf = [] then [] else [Static buf])"
| "parse_rule_aux True buf [] = None"
| "parse_rule_aux False buf (c # cs) =
     (if c = CHR ''<''
      then map_option (\<lambda>ps. if buf = [] then ps else Static buf # ps)
             (parse_rule_aux True [] cs)
      else if c = CHR ''>'' then None
      else parse_rule_aux False (buf @ [c]) cs)"
| "parse_rule_aux True buf (c # cs) =
     (if c = CHR ''>''
      then map_option (\<lambda>ps. mk_dynamic buf # ps) (parse_rule_aux False [] cs)
      else parse_rule_aux True (buf @ [c]) cs)"

definition parse_rule :: "string \<Rightarrow> part list option" where
  "parse_rule s = parse_rule_aux False [] s"

fun part_ok :: "part \<Rightarrow> bool" where
  "part_ok (Static s) = True"
| "part_ok (Dynamic conv name) = (conv \<in> set [''default'', ''string'', ''path''])"

definition compile :: "Rule \<Rightarrow> part list option" where
  "compile r =
     (case parse_rule (rule r) of
        None \<Rightarrow> None
      | Some ps \<Rightarrow> if list_all part_ok ps then Some ps else None)"

fun part_argument :: "part \<Rightarrow> string list" where
  "part_argument (Static s) = []"
| "part_argument (Dynamic conv name) = [name]"

definition arguments :: "part list \<Rightarrow> string list" where
  "arguments ps = remdups (concat (map part_argument ps))"

text \<open>\<open>urllib.parse.quote\<close> and \<open>quote_plus\<close> on the bytes of a string.\<close>

definition hex_digit :: "nat \<Rightarrow> char" where
  "hex_digit n = ''0123456789ABCDEF'' ! (n mod 16)"

definition always_safe :: "char \<Rightarrow> bool" where
  "always_safe c =
     (let n = (of_char c :: nat)
      in (65 \<le> n \<and> n \<le> 90) \<or> (97 \<le> n \<and> n \<le> 122) \<or> (48 \<le> n \<and> n \<le> 57)
         \<or> c \<in> set ''_.-~'')"

definition url_quote :: "string \<Rightarrow> string \<Rightarrow> string" where
  "url_quote safe s =
     concat (map (\<lambda>c. if always_safe c \<or> c \<in> set safe then [c]
                       else [CHR ''%'', hex_digit (of_char c div 16), hex_digit (of_char c)])
                 s)"

definition url_quote_plus :: "string \<Rightarrow> string \<Rightarrow> string" where
  "url_quote_plus safe s =
     map (\<lambda>c. if c = CHR '' '' then CHR ''+'' else c) (url_quote (CHR '' '' # safe) s)"

definition path_safe :: string where
  "path_safe = ''!$&()*+,/:;=@'' @ [CHR 0x27]"

definition query_safe :: string where
  "query_safe = ''!$()*,/:;?@'' @ [CHR 0x27]"

fun join_amp :: "string list \<Rightarrow> string" where
  "join_amp [] = []"
| "join_amp [x] = x"
| "join_amp (x # y # ys) = x @ ''&'' @ join_amp (y # ys)"

definition urlencode :: "vals \<Rightarrow> string" where
  "urlencode items =
     join_amp (map (\<lambda>(k, v). url_quote_plus query_safe k @ ''='' @ url_quote_plus query_safe v)
                   items)"

text \<open>\<open>Rule.suitable_for\<close> and \<open>Rule.build\<close> (with \<open>append_unknown=True\<close>).\<close>

definition suitable_for :: "Rule \<Rightarrow> part list \<Rightarrow> vals \<Rightarrow> string option \<Rightarrow> bool" where
  "suitable_for r ps values meth =
     (if meth \<noteq> None \<and> methods r \<noteq> None \<and> the meth \<notin> set (the (methods r)) then False
      else list_all (\<lambda>key. key \<in> fst ` set values) (arguments ps))"

fun part_url :: "vals \<Rightarrow> part \<Rightarrow> string" where
  "part_url values (Static s) = url_quote path_safe s"
| "part_url values (Dynamic conv name) =
     (case map_of values name of None \<Rightarrow> [] | Some v \<Rightarrow> url_quote path_safe v)"

definition rule_build :: "part list \<Rightarrow> vals \<Rightarrow> string" where
  "rule_build ps values =
     (let url = concat (map (part_url values) ps);
          unknown = filter (\<lambda>(k, v). k \<notin> set (arguments ps)) values
      in if unknown = [] then url else url @ ''?'' @ urlencode unknown)"

text \<open>
  The rules of an endpoint, in the order \<open>Map.update\<close> sorts them: more arguments first,
  otherwise the order of registration.
\<close>

definition rules_by_endpoint :: "Map \<Rightarrow> string \<Rightarrow> (Rule \<times> part list) list" where
  "rules_by_endpoint m ep =
     sort_key (\<lambda>(r, ps). - int (length (arguments ps)))
       (concat (map (\<lambda>r. if endpoint r = ep
                          then (case compile r of None \<Rightarrow> [] | Some ps \<Rightarrow> [(r, ps)])
                          else [])
                    m))"

fun first_suitable :: "(Rule \<times> part list) list \<Rightarrow> vals \<Rightarrow> string option \<Rightarrow> string option" where
  "first_suitable [] values meth = None"
| "first_suitable ((r, ps) # rest) values meth =
     (if suitable_for r ps values meth then Some (rule_build ps values)
      else first_suitable rest values meth)"

definition partial_build :: "Map \<Rightarrow> string \<Rightarrow> vals \<Rightarrow> string option \<Rightarrow> string option" where
  "partial_build m ep values meth =
     (let candidates = rules_by_endpoint m ep;
          by_default = (if meth = None then first_suitable candidates values (Some ''GET'')
                        else None)
      in case by_default of
           Some rv \<Rightarrow> Some rv
         | None \<Rightarrow> first_suitable candidates values meth)"

definition MapAdapter_build :: adapter where
  "MapAdapter_build m ep values meth =
     (case partial_build m ep values meth of
        None \<Rightarrow> Inl BuildError
      | Some path \<Rightarrow> Inr (CHR ''/'' # dropWhile (\<lambda>c. c = CHR ''/'') path))"

subsection \<open>Calls on the process state\<close>

text \<open>
  The resolver object and the application context are the state a call runs in.
  \<open>setup\<close> assigns \<open>self.url_map\<close> as its last statement, so a \<open>setup\<close> that raises
  leaves the object as it was; \<open>build\<close> and \<open>prefix\<close> contain no assignment.
  \<open>call_build\<close> is a call of \<open>build\<close> with a routing library whose build is a
  function of the table it is given.
\<close>

record world =
  resolver :: InvenioAppsUrlsBuilder
  app_ctx :: "Flask option"

definition call_setup :: "loader \<Rightarrow> world \<Rightarrow> Flask \<Rightarrow> (error + unit) \<times> world" where
  "call_setup blueprint_loader w app =
     (case setup_builder blueprint_loader (resolver w) app of
        Inl e \<Rightarrow> (Inl e, w)
      | Inr self' \<Rightarrow> (Inr (), w\<lparr>resolver := self'\<rparr>))"

definition call_build ::
  "adapter \<Rightarrow> world \<Rightarrow> string \<Rightarrow> vals \<Rightarrow> string option \<Rightarrow> (error + string) \<times> world" where
  "call_build adapter_build w ep values meth =
     (build adapter_build (resolver w) (app_ctx w) ep values meth, w)"





subsection \<open>A running example\<close>

text \<open>
  A main application that routes \<open>/records/<id>\<close>, and a second application whose
  blueprints add \<open>/search\<close> and its own route for the endpoint \<open>records.detail\<close>.
  \<open>archive_mirror\<close> is the table \<open>setup\<close> builds from it.
\<close>

definition static_rule :: Rule where
  "static_rule =
     \<lparr>rule = ''/static/<path:filename>'', endpoint = ''static'',
      methods = Some [''GET'', ''HEAD'', ''OPTIONS'']\<rparr>"

definition main_app :: Flask where
  "main_app =
     \<lparr>import_name = ''main'',
      config = [''SITE_UI_URL'' \<mapsto> Str ''https://main.example.org'',
                ''SITE_API_URL'' \<mapsto> Str ''https://archive.example.org''],
      app_url_map =
        [static_rule,
         \<lparr>rule = ''/records/<id>'', endpoint = ''records.detail'',
          methods = Some [''GET'', ''HEAD'', ''OPTIONS'']\<rparr>],
      view_functions =
        [''static'' \<mapsto> View ''send_static_file'',
         ''records.detail'' \<mapsto> View ''record_detail'']\<rparr>"

definition archive_routes :: "Rule list" where
  "archive_routes =
     [\<lparr>rule = ''/search'', endpoint = ''search.results'',
       methods = Some [''GET'', ''HEAD'', ''OPTIONS'']\<rparr>,
      \<lparr>rule = ''/api/records/<id>'', endpoint = ''records.detail'',
       methods = Some [''GET'', ''HEAD'', ''OPTIONS'']\<rparr>]"

definition archive_loader :: loader where
  "archive_loader tmp groups =
     Inr (tmp\<lparr>app_url_map := app_url_map tmp @ archive_routes,
              view_functions := (view_functions tmp)
                (''search.results'' \<mapsto> View ''search'',
                 ''records.detail'' \<mapsto> View ''api_record_detail'')\<rparr>)"

definition archive_mirror :: Map where
  "archive_mirror =
     [Rule_new ''/static/<path:filename>'' ''static'',
      Rule_new ''/search'' ''search.results'',
      Rule_new ''/api/records/<id>'' ''records.detail'']"

definition fresh_resolver :: InvenioAppsUrlsBuilder where
  "fresh_resolver = init ''SITE_UI_URL'' ''SITE_API_URL'' [''invenio_base.api_blueprints'']"

definition ready_resolver :: InvenioAppsUrlsBuilder where
  "ready_resolver = fresh_resolver\<lparr>url_map := Some archive_mirror\<rparr>"


section \<open>Properties\<close>

subsection \<open>The example, evaluated\<close>

lemma ex_setup: "setup_builder archive_loader fresh_resolver main_app = Inr ready_resolver"
  by (simp add: setup_builder_def archive_loader_def app_tmp_def Flask_new_def Map_new_def
      iter_rules_def archive_routes_def ready_resolver_def archive_mirror_def Rule_new_def)

lemma ex_own_records:
  "MapAdapter_build (app_url_map main_app) ''records.detail'' [(''id'', ''abc123'')] None
     = Inr ''/records/abc123''"
  by code_simp

lemma ex_own_search:
  "MapAdapter_build (app_url_map main_app) ''search.results'' [] None = Inl BuildError"
  by code_simp

lemma ex_mirror_search:
  "MapAdapter_build archive_mirror ''search.results'' [] None = Inr ''/search''"
  by code_simp

lemma ex_mirror_records:
  "MapAdapter_build archive_mirror ''records.detail'' [(''id'', ''abc123'')] None
     = Inr ''/api/records/abc123''"
  by code_simp

lemma ex_cfg:
  "config main_app (cfg_of_app_prefix fresh_resolver) = Some (Str ''https://main.example.org'')"
  "config main_app (cfg_of_other_app_prefix fresh_resolver) = Some (Str ''https://archive.example.org'')"
  by (simp_all add: main_app_def fresh_resolver_def init_def)



lemma ex_own_nonexistent:
  "MapAdapter_build (app_url_map main_app) ''nonexistent.page'' [] None = Inl BuildError"
  by code_simp

lemma ex_cfg_other:
  "cfg_of_app_prefix ready_resolver = ''SITE_UI_URL''"
  "cfg_of_other_app_prefix ready_resolver = ''SITE_API_URL''"
  "url_map ready_resolver = Some archive_mirror"
  "url_map fresh_resolver = None"
  by (simp_all add: ready_resolver_def fresh_resolver_def init_def)

lemma ex_absent_search: "\<forall>r\<in>set (app_url_map main_app). endpoint r \<noteq> ''search.results''"
  by (simp add: main_app_def static_rule_def)

lemma ex_mirror_nonexistent:
  "MapAdapter_build archive_mirror ''nonexistent.page'' [] None = Inl BuildError"
  by code_simp

lemma ex_other_search_post:
  "MapAdapter_build (static_rule # archive_routes) ''search.results'' [] (Some ''POST'')
     = Inl BuildError"
  by code_simp

lemma ex_loaded:
  "archive_loader (app_tmp main_app) (groups_of_other_app_entrypoints fresh_resolver)
     = Inr ((app_tmp main_app)\<lparr>app_url_map := static_rule # archive_routes,
              view_functions := (view_functions (app_tmp main_app))
                (''search.results'' \<mapsto> View ''search'',
                 ''records.detail'' \<mapsto> View ''api_record_detail'')\<rparr>)"
  by (simp add: archive_loader_def app_tmp_def Flask_new_def static_rule_def)

subsection \<open>The two phases\<close>

lemma build_own_hit:
  assumes "L (app_url_map app) ep vs meth = Inr path"
    and "config app (cfg_of_app_prefix self) = Some (Str p)"
  shows "build L self (Some app) ep vs meth = Inr (p @ path)"
  using assms by (simp add: build_def phase1_def prefix_def add_str_def)

lemma build_own_miss:
  assumes "L (app_url_map app) ep vs meth = Inl BuildError"
  shows "build L self (Some app) ep vs meth = phase2 L self (Some app) ep vs meth"
  using assms by (simp add: build_def phase1_def)

lemma phase2_hit:
  assumes "url_map self = Some m" and "L m ep vs meth = Inr path"
    and "config app (cfg_of_other_app_prefix self) = Some (Str p)"
  shows "phase2 L self (Some app) ep vs meth = Inr (p @ path)"
  using assms by (simp add: phase2_def prefix_def add_str_def)

lemma phase2_miss:
  assumes "url_map self = Some m" and "L m ep vs meth = Inl e"
  shows "phase2 L self ctx ep vs meth = Inl e"
  using assms by (simp add: phase2_def)

lemma rules_by_endpoint_absent:
  assumes "\<forall>r\<in>set m. endpoint r \<noteq> ep"
  shows "rules_by_endpoint m ep = []"
proof -
  have c: "concat (map (\<lambda>r. if endpoint r = ep
                          then (case compile r of None \<Rightarrow> [] | Some ps \<Rightarrow> [(r, ps)])
                          else []) m) = []"
    using assms by (induction m) auto
  show ?thesis unfolding rules_by_endpoint_def c by simp
qed

lemma MapAdapter_build_absent:
  assumes "\<forall>r\<in>set m. endpoint r \<noteq> ep"
  shows "MapAdapter_build m ep vs meth = Inl BuildError"
  using rules_by_endpoint_absent [OF assms]
  by (simp add: MapAdapter_build_def partial_build_def)

lemma rules_by_endpoint_subset:
  assumes "(r, ps) \<in> set (rules_by_endpoint m ep)"
  shows "r \<in> set m"
  using assms by (auto simp: rules_by_endpoint_def split: if_splits option.splits)

lemma suitable_for_no_methods:
  assumes "methods r = None"
  shows "suitable_for r ps vs meth = suitable_for r ps vs meth'"
  using assms by (simp add: suitable_for_def)

lemma first_suitable_no_methods:
  assumes "\<forall>(r, ps)\<in>set cs. methods r = None"
  shows "first_suitable cs vs meth = first_suitable cs vs meth'"
  using assms
proof (induction cs)
  case Nil
  then show ?case by simp
next
  case (Cons c cs)
  obtain r ps where c: "c = (r, ps)" by (cases c)
  with Cons.prems have "methods r = None" by simp
  then have "suitable_for r ps vs meth = suitable_for r ps vs meth'"
    by (rule suitable_for_no_methods)
  moreover have "first_suitable cs vs meth = first_suitable cs vs meth'"
    using Cons by simp
  ultimately show ?case by (simp add: c)
qed

lemma MapAdapter_build_no_methods:
  assumes "\<forall>r\<in>set m. methods r = None"
  shows "MapAdapter_build m ep vs meth = MapAdapter_build m ep vs meth'"
proof -
  have all: "\<forall>(r, ps)\<in>set (rules_by_endpoint m ep). methods r = None"
    using assms rules_by_endpoint_subset by blast
  have eq: "\<And>a b. first_suitable (rules_by_endpoint m ep) vs a =
                  first_suitable (rules_by_endpoint m ep) vs b"
    by (rule first_suitable_no_methods [OF all])
  have "partial_build m ep vs meth = first_suitable (rules_by_endpoint m ep) vs None"
    using eq [of meth None] eq [of "Some ''GET''" None]
    by (simp add: partial_build_def Let_def split: option.splits)
  moreover have "partial_build m ep vs meth' = first_suitable (rules_by_endpoint m ep) vs None"
    using eq [of meth' None] eq [of "Some ''GET''" None]
    by (simp add: partial_build_def Let_def split: option.splits)
  ultimately show ?thesis by (simp add: MapAdapter_build_def)
qed

lemma set_rules_by_endpoint:
  "set (rules_by_endpoint t ep)
     = {(r, ps). r \<in> set t \<and> endpoint r = ep \<and> compile r = Some ps}"
  by (auto simp: rules_by_endpoint_def split: if_splits option.splits)

lemma first_suitable_None:
  "first_suitable cs vs meth = None \<longleftrightarrow> (\<forall>(r, ps)\<in>set cs. \<not> suitable_for r ps vs meth)"
  by (induction cs vs meth rule: first_suitable.induct) (auto split: if_splits)

lemma suitable_for_drop_method:
  assumes "suitable_for r ps vs meth"
  shows "suitable_for r ps vs None"
  using assms by (simp add: suitable_for_def split: if_splits)

lemma first_suitable_drop_method:
  assumes "first_suitable cs vs None = None"
  shows "first_suitable cs vs meth = None"
  using assms suitable_for_drop_method unfolding first_suitable_None by blast

lemma partial_build_None:
  "partial_build t ep vs meth = None
     \<longleftrightarrow> first_suitable (rules_by_endpoint t ep) vs meth = None"
proof (cases meth)
  case None
  let ?c = "rules_by_endpoint t ep"
  show ?thesis
  proof (cases "first_suitable ?c vs (Some ''GET'')")
    case fs_None: None
    then show ?thesis by (simp add: partial_build_def Let_def \<open>meth = None\<close>)
  next
    case (Some rv)
    then have "first_suitable ?c vs None \<noteq> None"
      using first_suitable_drop_method [of ?c vs "Some ''GET''"] by auto
    then show ?thesis using Some by (simp add: partial_build_def Let_def \<open>meth = None\<close>)
  qed
next
  case (Some a)
  then show ?thesis by (simp add: partial_build_def Let_def)
qed

lemma MapAdapter_build_BuildError:
  "MapAdapter_build t ep vs meth = Inl BuildError
     \<longleftrightarrow> (\<forall>(r, ps)\<in>set (rules_by_endpoint t ep). \<not> suitable_for r ps vs meth)"
proof -
  have "MapAdapter_build t ep vs meth = Inl BuildError
          \<longleftrightarrow> partial_build t ep vs meth = None"
    by (simp add: MapAdapter_build_def split: option.splits)
  then show ?thesis by (simp add: partial_build_None first_suitable_None)
qed

lemma MapAdapter_build_cases:
  "MapAdapter_build t ep vs meth = Inl BuildError
     \<or> (\<exists>path. MapAdapter_build t ep vs meth = Inr path)"
  by (simp add: MapAdapter_build_def split: option.splits)

lemma compile_Rule_new: "compile (Rule_new (rule r) (endpoint r)) = compile r"
  by (simp add: compile_def Rule_new_def)

lemma suitable_for_Rule_new:
  "suitable_for (Rule_new s e) ps vs meth \<longleftrightarrow> set (arguments ps) \<subseteq> fst ` set vs"
  by (auto simp: suitable_for_def Rule_new_def list_all_iff)

lemma suitable_for_arguments:
  assumes "suitable_for r ps vs meth"
  shows "set (arguments ps) \<subseteq> fst ` set vs"
  using assms by (auto simp: suitable_for_def list_all_iff split: if_splits)

lemma mirror_builds_iff:
  "(\<exists>path. MapAdapter_build (map (\<lambda>r. Rule_new (rule r) (endpoint r)) t) ep vs meth = Inr path)
     \<longleftrightarrow> (\<exists>r\<in>set t. endpoint r = ep \<and>
            (\<exists>ps. compile r = Some ps \<and> set (arguments ps) \<subseteq> fst ` set vs))"
  (is "?L \<longleftrightarrow> ?R")
proof -
  let ?m = "map (\<lambda>r. Rule_new (rule r) (endpoint r)) t"
  have "?L \<longleftrightarrow> MapAdapter_build ?m ep vs meth \<noteq> Inl BuildError"
    using MapAdapter_build_cases [of ?m ep vs meth] by auto
  also have "\<dots> \<longleftrightarrow> (\<exists>(r', ps)\<in>set (rules_by_endpoint ?m ep). suitable_for r' ps vs meth)"
    by (auto simp: MapAdapter_build_BuildError)
  also have "\<dots> \<longleftrightarrow> ?R"
  proof
    assume "\<exists>(r', ps)\<in>set (rules_by_endpoint ?m ep). suitable_for r' ps vs meth"
    then obtain r' ps where in_c: "(r', ps) \<in> set (rules_by_endpoint ?m ep)"
      and suit: "suitable_for r' ps vs meth" by blast
    from in_c obtain r where r: "r \<in> set t" and r': "r' = Rule_new (rule r) (endpoint r)"
      and ep: "endpoint r' = ep" and c: "compile r' = Some ps"
      by (auto simp: set_rules_by_endpoint)
    have "endpoint r = ep" using ep r' by (simp add: Rule_new_def)
    moreover have "compile r = Some ps" using c r' by (simp add: compile_Rule_new)
    moreover have "set (arguments ps) \<subseteq> fst ` set vs"
      using suit by (rule suitable_for_arguments)
    ultimately show ?R using r by blast
  next
    assume ?R
    then obtain r ps where r: "r \<in> set t" and ep: "endpoint r = ep"
      and c: "compile r = Some ps" and a: "set (arguments ps) \<subseteq> fst ` set vs"
      by blast
    let ?r' = "Rule_new (rule r) (endpoint r)"
    have "?r' \<in> set ?m" using r by simp
    moreover have "endpoint ?r' = ep" using ep by (simp add: Rule_new_def)
    moreover have "compile ?r' = Some ps" using c by (simp add: compile_Rule_new)
    ultimately have "(?r', ps) \<in> set (rules_by_endpoint ?m ep)"
      unfolding set_rules_by_endpoint by blast
    moreover have "suitable_for ?r' ps vs meth"
      using a by (simp add: suitable_for_Rule_new)
    ultimately show "\<exists>(r', ps)\<in>set (rules_by_endpoint ?m ep). suitable_for r' ps vs meth"
      by blast
  qed
  finally show ?thesis .
qed

lemma other_builds_then_mirror_builds:
  assumes "MapAdapter_build t ep vs meth0 = Inr path"
  shows "\<exists>path'. MapAdapter_build (map (\<lambda>r. Rule_new (rule r) (endpoint r)) t) ep vs meth
           = Inr path'"
proof -
  from assms have "MapAdapter_build t ep vs meth0 \<noteq> Inl BuildError" by simp
  then obtain r ps where in_c: "(r, ps) \<in> set (rules_by_endpoint t ep)"
    and suit: "suitable_for r ps vs meth0"
    unfolding MapAdapter_build_BuildError by blast
  from in_c have "r \<in> set t" "endpoint r = ep" "compile r = Some ps"
    by (auto simp: set_rules_by_endpoint)
  moreover have "set (arguments ps) \<subseteq> fst ` set vs"
    using suit by (rule suitable_for_arguments)
  ultimately show ?thesis unfolding mirror_builds_iff by blast
qed

lemma setup_builder_Inr:
  assumes "setup_builder loader self app = Inr self'"
  obtains loaded where "loader (app_tmp app) (groups_of_other_app_entrypoints self) = Inr loaded"
    and "self' = self\<lparr>url_map := Some (map (\<lambda>r. Rule_new (rule r) (endpoint r)) (app_url_map loaded))\<rparr>"
  using assms
  by (auto simp: setup_builder_def Let_def Map_new_def iter_rules_def split: sum.splits)



lemma map_Rule_new_cong:
  assumes "map (\<lambda>r. (rule r, endpoint r)) xs = map (\<lambda>r. (rule r, endpoint r)) ys"
  shows "map (\<lambda>r. Rule_new (rule r) (endpoint r)) xs
           = map (\<lambda>r. Rule_new (rule r) (endpoint r)) ys"
proof -
  have "map (\<lambda>r. Rule_new (rule r) (endpoint r)) xs
          = map (\<lambda>(a, b). Rule_new a b) (map (\<lambda>r. (rule r, endpoint r)) xs)"
    by simp
  also have "\<dots> = map (\<lambda>(a, b). Rule_new a b) (map (\<lambda>r. (rule r, endpoint r)) ys)"
    by (simp only: assms)
  also have "\<dots> = map (\<lambda>r. Rule_new (rule r) (endpoint r)) ys"
    by simp
  finally show ?thesis .
qed

subsection \<open>Building with the tables threaded\<close>






subsection \<open>Claims\<close>

text \<open>
  C1. When the build against the current application's own table succeeds and the own
  prefix is configured as a string, \<open>build\<close> returns that prefix followed by the path
  from the own table. This holds whatever the resolver's \<open>url_map\<close> attribute is (unset,
  or any table, with or without the endpoint) and whatever the adapter would answer on
  it: the mirrored table has no influence on the result.
\<close>

theorem own_table_wins:
  assumes "L (app_url_map app) ep vs meth = Inr path"
    and "config app (cfg_of_app_prefix self) = Some (Str p)"
  shows "build L (self\<lparr>url_map := mirror\<rparr>) (Some app) ep vs meth = Inr (p @ path)"
  using assms by (simp add: build_own_hit)

theorem own_table_wins_witness:
  "MapAdapter_build archive_mirror ''records.detail'' [(''id'', ''abc123'')] None
     = Inr ''/api/records/abc123'' \<and>
   build MapAdapter_build ready_resolver (Some main_app)
     ''records.detail'' [(''id'', ''abc123'')] None
     = Inr ''https://main.example.org/records/abc123''"
  using own_table_wins [where L = MapAdapter_build and app = main_app and self = fresh_resolver
      and mirror = "Some archive_mirror", OF ex_own_records ex_cfg(1)] ex_mirror_records
  by (simp add: ready_resolver_def)

text \<open>
  C2, as amended. The second attempt is made exactly when the adapter raises
  \<open>BuildError\<close> on the own table: then \<open>build\<close> is the outcome of the statements after
  the \<open>try\<close> block (read \<open>self.url_map\<close>, build from it, prefix with the other
  application's prefix). In the reference model of the routing library the own table
  raises \<open>BuildError\<close> exactly when none of the rules it holds for the endpoint suits the
  values and the method hint: when the endpoint is absent, and also when it is present
  with rules that do not fit. Every other failure of phase 1 is the result of \<open>build\<close>
  whatever the mirrored table is: another exception of the adapter, a missing own prefix
  key (\<open>KeyError\<close>) or a prefix that is not a string (\<open>TypeError\<close>) after a successful
  own build, and the absence of an application context (\<open>RuntimeError\<close>).
\<close>

theorem fallback_only_on_build_error:
  "((\<forall>r\<in>set (app_url_map app). endpoint r \<noteq> ep) \<longrightarrow>
      MapAdapter_build (app_url_map app) ep vs meth = Inl BuildError)
   \<and> (MapAdapter_build (app_url_map app) ep vs meth = Inl BuildError \<longleftrightarrow>
        (\<forall>(r, ps)\<in>set (rules_by_endpoint (app_url_map app) ep).
           \<not> suitable_for r ps vs meth))
   \<and> (L (app_url_map app) ep vs meth = Inl BuildError \<longrightarrow>
      build L self (Some app) ep vs meth =
        (case url_map self of
           None \<Rightarrow> Inl (AttributeError ''url_map'')
         | Some m \<Rightarrow>
             (case L m ep vs meth of
                Inl e \<Rightarrow> Inl e
              | Inr path \<Rightarrow>
                  (case config app (cfg_of_other_app_prefix self) of
                     None \<Rightarrow> Inl (KeyError (cfg_of_other_app_prefix self))
                   | Some (Str p) \<Rightarrow> Inr (p @ path)
                   | Some _ \<Rightarrow> Inl TypeError))))
   \<and> (\<forall>e. L (app_url_map app) ep vs meth = Inl e \<and> e \<noteq> BuildError \<longrightarrow>
         (\<forall>mirror. build L (self\<lparr>url_map := mirror\<rparr>) (Some app) ep vs meth = Inl e))
   \<and> (\<forall>path. L (app_url_map app) ep vs meth = Inr path \<and>
         config app (cfg_of_app_prefix self) = None \<longrightarrow>
         (\<forall>mirror. build L (self\<lparr>url_map := mirror\<rparr>) (Some app) ep vs meth =
                Inl (KeyError (cfg_of_app_prefix self))))
   \<and> (\<forall>path v. L (app_url_map app) ep vs meth = Inr path \<and>
         config app (cfg_of_app_prefix self) = Some v \<and> (\<forall>s. v \<noteq> Str s) \<longrightarrow>
         (\<forall>mirror. build L (self\<lparr>url_map := mirror\<rparr>) (Some app) ep vs meth = Inl TypeError))
   \<and> (\<forall>mirror. build L (self\<lparr>url_map := mirror\<rparr>) None ep vs meth = Inl RuntimeError)"
proof -
  have absent: "(\<forall>r\<in>set (app_url_map app). endpoint r \<noteq> ep) \<longrightarrow>
      MapAdapter_build (app_url_map app) ep vs meth = Inl BuildError"
    by (simp add: MapAdapter_build_absent)
  have unsuitable: "MapAdapter_build (app_url_map app) ep vs meth = Inl BuildError \<longleftrightarrow>
        (\<forall>(r, ps)\<in>set (rules_by_endpoint (app_url_map app) ep).
           \<not> suitable_for r ps vs meth)"
    by (rule MapAdapter_build_BuildError)
  have outcomes:
    "(L (app_url_map app) ep vs meth = Inl BuildError \<longrightarrow>
        build L self (Some app) ep vs meth =
          (case url_map self of
             None \<Rightarrow> Inl (AttributeError ''url_map'')
           | Some m \<Rightarrow>
               (case L m ep vs meth of
                  Inl e \<Rightarrow> Inl e
                | Inr path \<Rightarrow>
                    (case config app (cfg_of_other_app_prefix self) of
                       None \<Rightarrow> Inl (KeyError (cfg_of_other_app_prefix self))
                     | Some (Str p) \<Rightarrow> Inr (p @ path)
                     | Some _ \<Rightarrow> Inl TypeError))))
     \<and> (\<forall>e. L (app_url_map app) ep vs meth = Inl e \<and> e \<noteq> BuildError \<longrightarrow>
           (\<forall>mirror. build L (self\<lparr>url_map := mirror\<rparr>) (Some app) ep vs meth = Inl e))
     \<and> (\<forall>path. L (app_url_map app) ep vs meth = Inr path \<and>
           config app (cfg_of_app_prefix self) = None \<longrightarrow>
           (\<forall>mirror. build L (self\<lparr>url_map := mirror\<rparr>) (Some app) ep vs meth =
                  Inl (KeyError (cfg_of_app_prefix self))))
     \<and> (\<forall>path v. L (app_url_map app) ep vs meth = Inr path \<and>
           config app (cfg_of_app_prefix self) = Some v \<and> (\<forall>s. v \<noteq> Str s) \<longrightarrow>
           (\<forall>mirror. build L (self\<lparr>url_map := mirror\<rparr>) (Some app) ep vs meth = Inl TypeError))
     \<and> (\<forall>mirror. build L (self\<lparr>url_map := mirror\<rparr>) None ep vs meth = Inl RuntimeError)"
    by (auto simp: build_def phase1_def phase2_def prefix_def add_str_def
        split: sum.splits error.splits option.splits cfgval.splits)
  show ?thesis by (rule conjI [OF absent conjI [OF unsuitable outcomes]])
qed

theorem fallback_only_on_build_error_witness:
  "build MapAdapter_build ready_resolver (Some main_app) ''search.results'' [] None
     = Inr ''https://archive.example.org/search'' \<and>
   build MapAdapter_build ready_resolver (Some (main_app\<lparr>config := Map.empty\<rparr>))
     ''records.detail'' [(''id'', ''abc123'')] None
     = Inl (KeyError ''SITE_UI_URL'') \<and>
   build MapAdapter_build ready_resolver None ''search.results'' [] None = Inl RuntimeError"
proof -
  have a: "build MapAdapter_build ready_resolver (Some main_app) ''search.results'' [] None
     = Inr ''https://archive.example.org/search''"
    using fallback_only_on_build_error [where L = MapAdapter_build and app = main_app
        and self = ready_resolver and ep = "''search.results''" and vs = "[]" and meth = None,
        THEN conjunct2, THEN conjunct2]
      ex_own_search ex_mirror_search
    by (simp add: ex_cfg_other main_app_def)
  have own: "MapAdapter_build (app_url_map (main_app\<lparr>config := Map.empty\<rparr>))
               ''records.detail'' [(''id'', ''abc123'')] None = Inr ''/records/abc123''"
    using ex_own_records by simp
  have b: "build MapAdapter_build (ready_resolver\<lparr>url_map := Some archive_mirror\<rparr>)
             (Some (main_app\<lparr>config := Map.empty\<rparr>))
             ''records.detail'' [(''id'', ''abc123'')] None = Inl (KeyError ''SITE_UI_URL'')"
    using fallback_only_on_build_error [where L = MapAdapter_build
        and app = "main_app\<lparr>config := Map.empty\<rparr>"
        and self = ready_resolver and ep = "''records.detail''"
        and vs = "[(''id'', ''abc123'')]" and meth = None,
        THEN conjunct2, THEN conjunct2] own
    by (simp add: ex_cfg_other)
  have c: "build MapAdapter_build (ready_resolver\<lparr>url_map := Some archive_mirror\<rparr>) None
             ''search.results'' [] None = Inl RuntimeError"
    using fallback_only_on_build_error [where L = MapAdapter_build and self = ready_resolver,
        THEN conjunct2, THEN conjunct2]
    by simp
  have r: "ready_resolver\<lparr>url_map := Some archive_mirror\<rparr> = ready_resolver"
    by (simp add: ready_resolver_def)
  show ?thesis using a b c by (simp add: r)
qed

text \<open>
  C2 as stated fails: the fall back is not reserved to an endpoint that the own table
  lacks. \<open>records.detail\<close> is in the own table, restricted to \<open>GET\<close>, \<open>HEAD\<close> and
  \<open>OPTIONS\<close>; with the method hint \<open>POST\<close> the own build raises \<open>BuildError\<close>, the
  \<open>except\<close> clause catches it, and \<open>build\<close> returns the URL of the mirrored route.
\<close>

theorem fallback_on_present_endpoint_counterexample:
  "''records.detail'' \<in> endpoint ` set (app_url_map main_app) \<and>
   MapAdapter_build (app_url_map main_app) ''records.detail'' [(''id'', ''abc123'')]
     (Some ''POST'') = Inl BuildError \<and>
   build MapAdapter_build ready_resolver (Some main_app) ''records.detail''
     [(''id'', ''abc123'')] (Some ''POST'')
     = Inr ''https://archive.example.org/api/records/abc123''"
proof -
  have present: "''records.detail'' \<in> endpoint ` set (app_url_map main_app)"
    by (simp add: main_app_def)
  have own: "MapAdapter_build (app_url_map main_app) ''records.detail'' [(''id'', ''abc123'')]
               (Some ''POST'') = Inl BuildError"
    by code_simp
  have mirror: "MapAdapter_build archive_mirror ''records.detail'' [(''id'', ''abc123'')]
                  (Some ''POST'') = Inr ''/api/records/abc123''"
    by code_simp
  have cfg: "config main_app (cfg_of_other_app_prefix ready_resolver)
               = Some (Str ''https://archive.example.org'')"
    by (simp add: ex_cfg_other main_app_def)
  have "build MapAdapter_build ready_resolver (Some main_app) ''records.detail''
          [(''id'', ''abc123'')] (Some ''POST'')
          = phase2 MapAdapter_build ready_resolver (Some main_app) ''records.detail''
              [(''id'', ''abc123'')] (Some ''POST'')"
    using own by (rule build_own_miss)
  also have "\<dots> = Inr (''https://archive.example.org'' @ ''/api/records/abc123'')"
    using ex_cfg_other(3) mirror cfg by (rule phase2_hit)
  finally show ?thesis using present own by simp
qed

text \<open>
  C3. With the reference model of the routing library: when no route of the own table
  has the endpoint, the resolver has a mirrored table from which the endpoint builds,
  and the other application's prefix is configured as a string, \<open>build\<close> returns that
  prefix followed by the path from the mirrored table. In particular \<open>search.results\<close>,
  mirrored as \<open>/search\<close>, with the other prefix \<open>https://archive.example.org\<close>, gives
  \<open>https://archive.example.org/search\<close>.
\<close>

theorem mirror_only_endpoint:
  "(\<forall>app self m ep vs meth path p.
      (\<forall>r\<in>set (app_url_map app). endpoint r \<noteq> ep) \<and>
      url_map self = Some m \<and>
      MapAdapter_build m ep vs meth = Inr path \<and>
      config app (cfg_of_other_app_prefix self) = Some (Str p) \<longrightarrow>
      build MapAdapter_build self (Some app) ep vs meth = Inr (p @ path))
   \<and> (\<forall>app self meth.
      (\<forall>r\<in>set (app_url_map app). endpoint r \<noteq> ''search.results'') \<and>
      url_map self = Some [Rule_new ''/search'' ''search.results''] \<and>
      config app (cfg_of_other_app_prefix self) = Some (Str ''https://archive.example.org'') \<longrightarrow>
      build MapAdapter_build self (Some app) ''search.results'' [] meth
        = Inr ''https://archive.example.org/search'')"
proof -
  have gen: "build MapAdapter_build self (Some app) ep vs meth = Inr (p @ path)"
    if absent: "\<forall>r\<in>set (app_url_map app). endpoint r \<noteq> ep"
      and m: "url_map self = Some m"
      and hit: "MapAdapter_build m ep vs meth = Inr path"
      and cfg: "config app (cfg_of_other_app_prefix self) = Some (Str p)"
    for app :: Flask and self :: InvenioAppsUrlsBuilder and m ep vs meth path p
  proof -
    have "MapAdapter_build (app_url_map app) ep vs meth = Inl BuildError"
      using absent by (rule MapAdapter_build_absent)
    then have "build MapAdapter_build self (Some app) ep vs meth
                 = phase2 MapAdapter_build self (Some app) ep vs meth"
      by (rule build_own_miss)
    also have "\<dots> = Inr (p @ path)"
      using m hit cfg by (rule phase2_hit)
    finally show ?thesis .
  qed
  have search_None: "MapAdapter_build [Rule_new ''/search'' ''search.results'']
                  ''search.results'' [] None = Inr ''/search''"
    by code_simp
  have search: "MapAdapter_build [Rule_new ''/search'' ''search.results'']
                  ''search.results'' [] meth = Inr ''/search''" for meth
    using MapAdapter_build_no_methods [of "[Rule_new ''/search'' ''search.results'']"
        "''search.results''" "[]" meth None] search_None
    by (simp add: Rule_new_def)
  show ?thesis
  proof (intro conjI allI impI)
    fix app :: Flask and self :: InvenioAppsUrlsBuilder and m ep vs meth path p
    assume "(\<forall>r\<in>set (app_url_map app). endpoint r \<noteq> ep) \<and>
      url_map self = Some m \<and>
      MapAdapter_build m ep vs meth = Inr path \<and>
      config app (cfg_of_other_app_prefix self) = Some (Str p)"
    then show "build MapAdapter_build self (Some app) ep vs meth = Inr (p @ path)"
      using gen by blast
  next
    fix app :: Flask and self :: InvenioAppsUrlsBuilder and meth
    assume "(\<forall>r\<in>set (app_url_map app). endpoint r \<noteq> ''search.results'') \<and>
      url_map self = Some [Rule_new ''/search'' ''search.results''] \<and>
      config app (cfg_of_other_app_prefix self) = Some (Str ''https://archive.example.org'')"
    then show "build MapAdapter_build self (Some app) ''search.results'' [] meth
        = Inr ''https://archive.example.org/search''"
      using gen [of app "''search.results''" self "[Rule_new ''/search'' ''search.results'']"
          "[]" meth "''/search''" "''https://archive.example.org''"] search [of meth]
      by simp
  qed
qed

theorem mirror_only_endpoint_witness:
  "build MapAdapter_build ready_resolver (Some main_app) ''search.results'' [] None
     = Inr ''https://archive.example.org/search''"
proof -
  have cfg: "config main_app (cfg_of_other_app_prefix ready_resolver)
               = Some (Str ''https://archive.example.org'')"
    by (simp add: ex_cfg_other main_app_def)
  have "build MapAdapter_build ready_resolver (Some main_app) ''search.results'' [] None
          = Inr (''https://archive.example.org'' @ ''/search'')"
    using mirror_only_endpoint ex_absent_search ex_cfg_other(3) ex_mirror_search cfg
    by blast
  then show ?thesis by simp
qed

text \<open>
  C4. When both lookups raise \<open>BuildError\<close>, \<open>build\<close> raises \<open>BuildError\<close>: no string
  is returned and nothing is tried after the mirrored table. With the reference model
  of the routing library this is the case whenever no route of the own table and no
  route of the mirrored table has the endpoint.
\<close>

theorem endpoint_in_neither_table:
  "(\<forall>L (app :: Flask) (self :: InvenioAppsUrlsBuilder) m ep vs meth.
      L (app_url_map app) ep vs meth = Inl BuildError \<and>
      url_map self = Some m \<and>
      L m ep vs meth = Inl BuildError \<longrightarrow>
      build L self (Some app) ep vs meth = Inl BuildError)
   \<and> (\<forall>(app :: Flask) (self :: InvenioAppsUrlsBuilder) m ep vs meth.
      (\<forall>r\<in>set (app_url_map app). endpoint r \<noteq> ep) \<and>
      url_map self = Some m \<and>
      (\<forall>r\<in>set m. endpoint r \<noteq> ep) \<longrightarrow>
      build MapAdapter_build self (Some app) ep vs meth = Inl BuildError)"
proof -
  have gen: "build L self (Some app) ep vs meth = Inl BuildError"
    if "L (app_url_map app) ep vs meth = Inl BuildError"
      and "url_map self = Some m"
      and "L m ep vs meth = Inl BuildError"
    for L and app :: Flask and self :: InvenioAppsUrlsBuilder and m ep vs meth
    using that by (simp add: build_own_miss phase2_miss)
  have ref: "build MapAdapter_build self (Some app) ep vs meth = Inl BuildError"
    if "\<forall>r\<in>set (app_url_map app). endpoint r \<noteq> ep"
      and "url_map self = Some m"
      and "\<forall>r\<in>set m. endpoint r \<noteq> ep"
    for app :: Flask and self :: InvenioAppsUrlsBuilder and m ep vs meth
    using that gen [of MapAdapter_build app ep vs meth self m]
    by (simp add: MapAdapter_build_absent)
  show ?thesis using gen ref by blast
qed

theorem endpoint_in_neither_table_witness:
  "build MapAdapter_build ready_resolver (Some main_app) ''nonexistent.page'' [] None
     = Inl BuildError"
proof -
  have a: "\<forall>r\<in>set (app_url_map main_app). endpoint r \<noteq> ''nonexistent.page''"
    by (simp add: main_app_def static_rule_def)
  have b: "\<forall>r\<in>set archive_mirror. endpoint r \<noteq> ''nonexistent.page''"
    by (simp add: archive_mirror_def Rule_new_def)
  show ?thesis
    using endpoint_in_neither_table a b ex_cfg_other(3) by blast
qed

text \<open>
  C5. Every URL \<open>build\<close> returns is a configured prefix string followed, unchanged, by
  the path the adapter built: the own prefix and the own table's path, or, after a
  \<open>BuildError\<close> on the own table, the other prefix and the mirrored table's path. In
  particular \<open>records.detail\<close> with \<open>id = abc123\<close>, routed as \<open>/records/<id>\<close> in the
  own table, with the own prefix \<open>https://main.example.org\<close>, gives
  \<open>https://main.example.org/records/abc123\<close>.
\<close>

theorem url_is_prefix_then_path:
  "(\<forall>L self ctx ep vs meth url.
      build L self ctx ep vs meth = Inr url \<longrightarrow>
      (\<exists>app p path.
         ctx = Some app \<and> url = p @ path \<and>
         ((L (app_url_map app) ep vs meth = Inr path \<and>
           config app (cfg_of_app_prefix self) = Some (Str p)) \<or>
          (L (app_url_map app) ep vs meth = Inl BuildError \<and>
           (\<exists>m. url_map self = Some m \<and> L m ep vs meth = Inr path) \<and>
           config app (cfg_of_other_app_prefix self) = Some (Str p)))))
   \<and> (\<forall>(self :: InvenioAppsUrlsBuilder) (app :: Flask) ms.
      app_url_map app = [\<lparr>rule = ''/records/<id>'', endpoint = ''records.detail'',
                           methods = ms\<rparr>] \<and>
      config app (cfg_of_app_prefix self) = Some (Str ''https://main.example.org'') \<and>
      (ms = None \<or> ms = Some [''GET'', ''HEAD'', ''OPTIONS'']) \<longrightarrow>
      build MapAdapter_build self (Some app) ''records.detail'' [(''id'', ''abc123'')] None
        = Inr ''https://main.example.org/records/abc123'')"
proof -
  have gen: "\<exists>app p path.
         ctx = Some app \<and> url = p @ path \<and>
         ((L (app_url_map app) ep vs meth = Inr path \<and>
           config app (cfg_of_app_prefix self) = Some (Str p)) \<or>
          (L (app_url_map app) ep vs meth = Inl BuildError \<and>
           (\<exists>m. url_map self = Some m \<and> L m ep vs meth = Inr path) \<and>
           config app (cfg_of_other_app_prefix self) = Some (Str p)))"
    if "build L self ctx ep vs meth = Inr url" for L self ctx ep vs meth url
    using that
    by (auto simp: build_def phase1_def phase2_def prefix_def add_str_def
        split: sum.splits error.splits option.splits cfgval.splits)
  have p1: "MapAdapter_build [\<lparr>rule = ''/records/<id>'', endpoint = ''records.detail'',
                                methods = None\<rparr>]
              ''records.detail'' [(''id'', ''abc123'')] None = Inr ''/records/abc123''"
    by code_simp
  have p2: "MapAdapter_build [\<lparr>rule = ''/records/<id>'', endpoint = ''records.detail'',
                                methods = Some [''GET'', ''HEAD'', ''OPTIONS'']\<rparr>]
              ''records.detail'' [(''id'', ''abc123'')] None = Inr ''/records/abc123''"
    by code_simp
  have scen: "build MapAdapter_build self (Some app) ''records.detail'' [(''id'', ''abc123'')] None
        = Inr ''https://main.example.org/records/abc123''"
    if "app_url_map app = [\<lparr>rule = ''/records/<id>'', endpoint = ''records.detail'',
                           methods = ms\<rparr>]"
      and "config app (cfg_of_app_prefix self) = Some (Str ''https://main.example.org'')"
      and "ms = None \<or> ms = Some [''GET'', ''HEAD'', ''OPTIONS'']"
    for self :: InvenioAppsUrlsBuilder and app :: Flask and ms
  proof -
    have "MapAdapter_build (app_url_map app) ''records.detail'' [(''id'', ''abc123'')] None
            = Inr ''/records/abc123''"
      using that(1,3) p1 p2 by auto
    then have "build MapAdapter_build self (Some app) ''records.detail'' [(''id'', ''abc123'')] None
            = Inr (''https://main.example.org'' @ ''/records/abc123'')"
      using that(2) by (rule build_own_hit)
    then show ?thesis by simp
  qed
  show ?thesis using gen scen by blast
qed

theorem url_is_prefix_then_path_witness:
  "build MapAdapter_build fresh_resolver
     (Some (main_app\<lparr>app_url_map :=
        [\<lparr>rule = ''/records/<id>'', endpoint = ''records.detail'', methods = None\<rparr>]\<rparr>))
     ''records.detail'' [(''id'', ''abc123'')] None
     = Inr ''https://main.example.org/records/abc123''"
proof -
  have "config (main_app\<lparr>app_url_map :=
        [\<lparr>rule = ''/records/<id>'', endpoint = ''records.detail'', methods = None\<rparr>]\<rparr>)
          (cfg_of_app_prefix fresh_resolver) = Some (Str ''https://main.example.org'')"
    using ex_cfg(1) by simp
  moreover have "app_url_map (main_app\<lparr>app_url_map :=
        [\<lparr>rule = ''/records/<id>'', endpoint = ''records.detail'', methods = None\<rparr>]\<rparr>)
        = [\<lparr>rule = ''/records/<id>'', endpoint = ''records.detail'', methods = None\<rparr>]"
    by simp
  ultimately show ?thesis
    using url_is_prefix_then_path by blast
qed

text \<open>
  C6. The prefix is read from the configuration of the application context at the call.
  After any earlier call of \<open>build\<close> on the same resolver, a call made when the
  configuration is \<open>cfg'\<close> is decided by \<open>cfg'\<close> alone: a successful own build ends in
  \<open>KeyError\<close> when the own prefix key is absent from \<open>cfg'\<close> and in the value of that
  key followed by the path when the value is a string; the same holds for the other
  prefix key after a fall back to the mirrored table. No default stands in for an
  absent key.
\<close>

theorem prefix_read_at_every_call:
  assumes "call_build L w ep0 vs0 meth0 = (r0, w0)"
    and "app_ctx w = Some app"
  shows
    "(L (app_url_map app) ep vs meth = Inr path \<longrightarrow>
        fst (call_build L (w0\<lparr>app_ctx := Some (app\<lparr>config := cfg'\<rparr>)\<rparr>) ep vs meth)
          = (case cfg' (cfg_of_app_prefix (resolver w)) of
               None \<Rightarrow> Inl (KeyError (cfg_of_app_prefix (resolver w)))
             | Some (Str p) \<Rightarrow> Inr (p @ path)
             | Some _ \<Rightarrow> Inl TypeError))
     \<and> (L (app_url_map app) ep vs meth = Inl BuildError \<and>
        url_map (resolver w) = Some m \<and> L m ep vs meth = Inr path \<longrightarrow>
        fst (call_build L (w0\<lparr>app_ctx := Some (app\<lparr>config := cfg'\<rparr>)\<rparr>) ep vs meth)
          = (case cfg' (cfg_of_other_app_prefix (resolver w)) of
               None \<Rightarrow> Inl (KeyError (cfg_of_other_app_prefix (resolver w)))
             | Some (Str p) \<Rightarrow> Inr (p @ path)
             | Some _ \<Rightarrow> Inl TypeError))"
proof -
  from assms(1) have w0: "w0 = w" by (simp add: call_build_def)
  show ?thesis
    unfolding w0
    by (auto simp: call_build_def build_def phase1_def phase2_def prefix_def add_str_def
        split: option.splits cfgval.splits)
qed

theorem prefix_read_at_every_call_witness:
  "fst (call_build MapAdapter_build
          (\<lparr>resolver = ready_resolver, app_ctx = Some main_app\<rparr>
             \<lparr>app_ctx := Some (main_app\<lparr>config :=
                 [''SITE_UI_URL'' \<mapsto> Str ''https://new.example.org'']\<rparr>)\<rparr>)
          ''records.detail'' [(''id'', ''abc123'')] None)
     = Inr ''https://new.example.org/records/abc123'' \<and>
   fst (call_build MapAdapter_build
          (\<lparr>resolver = ready_resolver, app_ctx = Some main_app\<rparr>
             \<lparr>app_ctx := Some (main_app\<lparr>config := Map.empty\<rparr>)\<rparr>)
          ''records.detail'' [(''id'', ''abc123'')] None)
     = Inl (KeyError ''SITE_UI_URL'')"
proof -
  let ?w = "\<lparr>resolver = ready_resolver, app_ctx = Some main_app\<rparr>"
  have first: "call_build MapAdapter_build ?w ''records.detail'' [(''id'', ''abc123'')] None
                 = (build MapAdapter_build ready_resolver (Some main_app)
                      ''records.detail'' [(''id'', ''abc123'')] None, ?w)"
    by (simp add: call_build_def)
  have ctx: "app_ctx ?w = Some main_app" by simp
  note t = prefix_read_at_every_call [OF first ctx, where ep = "''records.detail''"
      and vs = "[(''id'', ''abc123'')]" and meth = None and path = "''/records/abc123''"]
  have a: "fst (call_build MapAdapter_build
          (?w\<lparr>app_ctx := Some (main_app\<lparr>config :=
                 [''SITE_UI_URL'' \<mapsto> Str ''https://new.example.org'']\<rparr>)\<rparr>)
          ''records.detail'' [(''id'', ''abc123'')] None)
     = Inr ''https://new.example.org/records/abc123''"
    using t [where cfg' = "[''SITE_UI_URL'' \<mapsto> Str ''https://new.example.org'']"]
      ex_own_records
    by (simp add: ex_cfg_other)
  have b: "fst (call_build MapAdapter_build
          (?w\<lparr>app_ctx := Some (main_app\<lparr>config := Map.empty\<rparr>)\<rparr>)
          ''records.detail'' [(''id'', ''abc123'')] None)
     = Inl (KeyError ''SITE_UI_URL'')"
    using t [where cfg' = "Map.empty"] ex_own_records
    by (simp add: ex_cfg_other)
  show ?thesis using a b by simp
qed

text \<open>
  C7. When \<open>setup\<close> completes, the mirrored table has one entry for each route of the
  temporary application, in the same order, with that route's pattern and endpoint and
  no method restriction; a \<open>Rule\<close> has no other attribute here, and the resolver keeps
  nothing else of the temporary application. The resolver after \<open>setup\<close> is the same
  for every loaded application with the same list of patterns and endpoints, whatever
  its view functions are: no view function reaches the resolver.
\<close>

theorem mirror_holds_pattern_and_endpoint_only:
  assumes "setup_builder loader self app = Inr self'"
  shows "\<exists>loaded m.
           loader (app_tmp app) (groups_of_other_app_entrypoints self) = Inr loaded \<and>
           url_map self' = Some m \<and>
           length m = length (app_url_map loaded) \<and>
           (\<forall>i<length m.
              rule (m ! i) = rule (app_url_map loaded ! i) \<and>
              endpoint (m ! i) = endpoint (app_url_map loaded ! i) \<and>
              methods (m ! i) = None) \<and>
           (\<forall>loaded'.
              map (\<lambda>r. (rule r, endpoint r)) (app_url_map loaded')
                = map (\<lambda>r. (rule r, endpoint r)) (app_url_map loaded) \<longrightarrow>
              setup_builder (\<lambda>tmp groups. Inr loaded') self app = Inr self')"
proof -
  from assms obtain loaded where
    l: "loader (app_tmp app) (groups_of_other_app_entrypoints self) = Inr loaded"
    and s: "self' = self\<lparr>url_map :=
              Some (map (\<lambda>r. Rule_new (rule r) (endpoint r)) (app_url_map loaded))\<rparr>"
    by (rule setup_builder_Inr)
  let ?m = "map (\<lambda>r. Rule_new (rule r) (endpoint r)) (app_url_map loaded)"
  have m: "url_map self' = Some ?m" using s by simp
  have len: "length ?m = length (app_url_map loaded)" by simp
  have entries: "\<forall>i<length ?m.
              rule (?m ! i) = rule (app_url_map loaded ! i) \<and>
              endpoint (?m ! i) = endpoint (app_url_map loaded ! i) \<and>
              methods (?m ! i) = None"
    by (simp add: Rule_new_def)
  have indep: "setup_builder (\<lambda>tmp groups. Inr loaded') self app = Inr self'"
    if "map (\<lambda>r. (rule r, endpoint r)) (app_url_map loaded')
          = map (\<lambda>r. (rule r, endpoint r)) (app_url_map loaded)" for loaded'
    using map_Rule_new_cong [OF that] s
    by (simp add: setup_builder_def Map_new_def iter_rules_def)
  show ?thesis
  proof (intro exI conjI)
    show "loader (app_tmp app) (groups_of_other_app_entrypoints self) = Inr loaded"
      by (rule l)
    show "url_map self' = Some ?m" by (rule m)
    show "length ?m = length (app_url_map loaded)" by (rule len)
    show "\<forall>i<length ?m.
              rule (?m ! i) = rule (app_url_map loaded ! i) \<and>
              endpoint (?m ! i) = endpoint (app_url_map loaded ! i) \<and>
              methods (?m ! i) = None"
      by (rule entries)
    show "\<forall>loaded'.
              map (\<lambda>r. (rule r, endpoint r)) (app_url_map loaded')
                = map (\<lambda>r. (rule r, endpoint r)) (app_url_map loaded) \<longrightarrow>
              setup_builder (\<lambda>tmp groups. Inr loaded') self app = Inr self'"
      using indep by blast
  qed
qed

theorem mirror_holds_pattern_and_endpoint_only_witness:
  "\<exists>loaded m.
     archive_loader (app_tmp main_app) (groups_of_other_app_entrypoints fresh_resolver)
       = Inr loaded \<and>
     view_functions loaded ''search.results'' = Some (View ''search'') \<and>
     url_map ready_resolver = Some m \<and>
     length m = length (app_url_map loaded) \<and>
     map (\<lambda>r. (rule r, endpoint r, methods r)) m =
       [(''/static/<path:filename>'', ''static'', None),
        (''/search'', ''search.results'', None),
        (''/api/records/<id>'', ''records.detail'', None)]"
proof -
  from mirror_holds_pattern_and_endpoint_only [OF ex_setup] obtain loaded m where
    l: "archive_loader (app_tmp main_app) (groups_of_other_app_entrypoints fresh_resolver)
          = Inr loaded"
    and m: "url_map ready_resolver = Some m"
    and len: "length m = length (app_url_map loaded)"
    by blast
  have v: "view_functions loaded ''search.results'' = Some (View ''search'')"
    using l ex_loaded by auto
  have "m = archive_mirror" using m ex_cfg_other(3) by simp
  then have e: "map (\<lambda>r. (rule r, endpoint r, methods r)) m =
       [(''/static/<path:filename>'', ''static'', None),
        (''/search'', ''search.results'', None),
        (''/api/records/<id>'', ''records.detail'', None)]"
    by (simp add: archive_mirror_def Rule_new_def)
  show ?thesis
  proof (intro exI conjI)
    show "archive_loader (app_tmp main_app) (groups_of_other_app_entrypoints fresh_resolver)
            = Inr loaded" by (rule l)
    show "view_functions loaded ''search.results'' = Some (View ''search'')" by (rule v)
    show "url_map ready_resolver = Some m" by (rule m)
    show "length m = length (app_url_map loaded)" by (rule len)
    show "map (\<lambda>r. (rule r, endpoint r, methods r)) m =
       [(''/static/<path:filename>'', ''static'', None),
        (''/search'', ''search.results'', None),
        (''/api/records/<id>'', ''records.detail'', None)]" by (rule e)
  qed
qed



text \<open>
  C9. On a resolver as the constructor leaves it, a \<open>BuildError\<close> on the own table is
  followed by the read of the attribute \<open>url_map\<close>, which was never assigned: \<open>build\<close>
  raises \<open>AttributeError\<close>, not \<open>BuildError\<close>.
\<close>

theorem build_before_setup:
  assumes "L (app_url_map app) ep vs meth = Inl BuildError"
  shows "build L (init own other groups) (Some app) ep vs meth
           = Inl (AttributeError ''url_map'')"
  using assms by (simp add: build_own_miss phase2_def init_def)

theorem build_before_setup_witness:
  "build MapAdapter_build fresh_resolver (Some main_app) ''search.results'' [] None
     = Inl (AttributeError ''url_map'')"
  using build_before_setup [where L = MapAdapter_build and app = main_app
      and ep = "''search.results''" and vs = "[]" and meth = None
      and own = "''SITE_UI_URL''" and other = "''SITE_API_URL''"
      and groups = "[''invenio_base.api_blueprints'']"] ex_own_search
  by (simp add: fresh_resolver_def)

text \<open>
  C10. With the reference model of the routing library. After a completed \<open>setup\<close>,
  every rule of the mirrored table has no method restriction, and a build from it (and
  with it the whole of phase 2) gives the same outcome for every method hint as for
  none. The mirrored table is tied to the routes of the other application: a build from
  it succeeds exactly when some route of the loaded application has the endpoint, a
  pattern that compiles and arguments that are all among the values, whatever methods
  that route allows. So whenever the other application's own table builds the endpoint
  under some method hint, the mirrored table builds it under every method hint.
\<close>

theorem mirror_ignores_method:
  assumes "setup_builder loader self app = Inr self'"
  shows "\<exists>loaded m.
           loader (app_tmp app) (groups_of_other_app_entrypoints self) = Inr loaded \<and>
           url_map self' = Some m \<and>
           (\<forall>r\<in>set m. methods r = None) \<and>
           (\<forall>ep vs meth. MapAdapter_build m ep vs meth = MapAdapter_build m ep vs None) \<and>
           (\<forall>ctx ep vs meth.
              phase2 MapAdapter_build self' ctx ep vs meth
                = phase2 MapAdapter_build self' ctx ep vs None) \<and>
           (\<forall>ep vs meth.
              (\<exists>path. MapAdapter_build m ep vs meth = Inr path) \<longleftrightarrow>
              (\<exists>r\<in>set (app_url_map loaded). endpoint r = ep \<and>
                 (\<exists>ps. compile r = Some ps \<and> set (arguments ps) \<subseteq> fst ` set vs))) \<and>
           (\<forall>ep vs meth0 meth path.
              MapAdapter_build (app_url_map loaded) ep vs meth0 = Inr path \<longrightarrow>
              (\<exists>path'. MapAdapter_build m ep vs meth = Inr path'))"
proof -
  from assms obtain loaded where
    l: "loader (app_tmp app) (groups_of_other_app_entrypoints self) = Inr loaded"
    and s: "self' = self\<lparr>url_map :=
              Some (map (\<lambda>r. Rule_new (rule r) (endpoint r)) (app_url_map loaded))\<rparr>"
    by (rule setup_builder_Inr)
  let ?m = "map (\<lambda>r. Rule_new (rule r) (endpoint r)) (app_url_map loaded)"
  have m: "url_map self' = Some ?m" using s by simp
  have none: "\<forall>r\<in>set ?m. methods r = None" by (auto simp: Rule_new_def)
  have eq: "MapAdapter_build ?m ep vs meth = MapAdapter_build ?m ep vs None" for ep vs meth
    using none by (rule MapAdapter_build_no_methods)
  have p2: "phase2 MapAdapter_build self' ctx ep vs meth
              = phase2 MapAdapter_build self' ctx ep vs None" for ctx ep vs meth
    using m eq [of ep vs meth] by (simp add: phase2_def)
  show ?thesis
  proof (intro exI conjI)
    show "loader (app_tmp app) (groups_of_other_app_entrypoints self) = Inr loaded"
      by (rule l)
    show "url_map self' = Some ?m" by (rule m)
    show "\<forall>r\<in>set ?m. methods r = None" by (rule none)
    show "\<forall>ep vs meth. MapAdapter_build ?m ep vs meth = MapAdapter_build ?m ep vs None"
      using eq by blast
    show "\<forall>ctx ep vs meth.
              phase2 MapAdapter_build self' ctx ep vs meth
                = phase2 MapAdapter_build self' ctx ep vs None"
      using p2 by blast
    show "\<forall>ep vs meth.
              (\<exists>path. MapAdapter_build ?m ep vs meth = Inr path) \<longleftrightarrow>
              (\<exists>r\<in>set (app_url_map loaded). endpoint r = ep \<and>
                 (\<exists>ps. compile r = Some ps \<and> set (arguments ps) \<subseteq> fst ` set vs))"
      by (intro allI) (rule mirror_builds_iff)
    show "\<forall>ep vs meth0 meth path.
              MapAdapter_build (app_url_map loaded) ep vs meth0 = Inr path \<longrightarrow>
              (\<exists>path'. MapAdapter_build ?m ep vs meth = Inr path')"
      by (intro allI impI) (rule other_builds_then_mirror_builds)
  qed
qed

theorem mirror_ignores_method_witness:
  "setup_builder archive_loader fresh_resolver main_app = Inr ready_resolver \<and>
   MapAdapter_build (static_rule # archive_routes) ''search.results'' [] (Some ''POST'')
     = Inl BuildError \<and>
   phase2 MapAdapter_build ready_resolver (Some main_app) ''search.results'' []
     (Some ''POST'') = Inr ''https://archive.example.org/search''"
proof -
  have "\<forall>ctx ep vs meth.
              phase2 MapAdapter_build ready_resolver ctx ep vs meth
                = phase2 MapAdapter_build ready_resolver ctx ep vs None"
    using mirror_ignores_method [OF ex_setup] by (elim exE conjE)
  then have p2: "phase2 MapAdapter_build ready_resolver (Some main_app) ''search.results'' []
                   (Some ''POST'')
                 = phase2 MapAdapter_build ready_resolver (Some main_app) ''search.results'' []
                     None"
    by (rule allE [THEN allE, THEN allE, THEN allE])
  have cfg: "config main_app (cfg_of_other_app_prefix ready_resolver)
               = Some (Str ''https://archive.example.org'')"
    by (simp add: ex_cfg_other main_app_def)
  have "phase2 MapAdapter_build ready_resolver (Some main_app) ''search.results'' [] None
          = Inr (''https://archive.example.org'' @ ''/search'')"
    using ex_cfg_other(3) ex_mirror_search cfg by (rule phase2_hit)
  then have "phase2 MapAdapter_build ready_resolver (Some main_app) ''search.results'' []
               (Some ''POST'') = Inr ''https://archive.example.org/search''"
    using p2 by simp
  then show ?thesis using ex_setup ex_other_search_post by simp
qed

end
